theory Spec2Isabelle
  imports Main "HOL-Library.Word"
begin

section \<open>Python values used by lcs.py\<close>

text \<open>
  A Python \<open>str\<close> is a sequence of Unicode code points and a \<open>bytes\<close> object a
  sequence of 8-bit values. Literals of the source are written with \<open>text_of\<close> and
  \<open>bytes_of\<close>.
\<close>

type_synonym byte = "8 word"

type_synonym str = "nat list"

definition text_of :: "string \<Rightarrow> str" where
  "text_of cs = map of_char cs"

definition bytes_of :: "string \<Rightarrow> byte list" where
  "bytes_of cs = map (\<lambda>c. of_nat (of_char c)) cs"

definition newline :: nat where "newline = 10"
definition plus_sign :: nat where "plus_sign = 43"
definition comma :: nat where "comma = 44"
definition minus_sign :: nat where "minus_sign = 45"
definition dot :: nat where "dot = 46"
definition slash :: nat where "slash = 47"
definition underscore :: nat where "underscore = 95"

text \<open>The exceptions that the modelled statements can raise.\<close>

datatype pyexc =
  TypeError | UnboundLocalError | AttributeError | UnicodeDecodeError | ValueError | IndexError

text \<open>
  How a call ends: it returns, it blocks for ever in \<open>readline()\<close>, it leaves through
  \<open>sys.exit(n)\<close>, or an exception propagates out of it. Nothing in lcs.py catches
  \<open>SystemExit\<close>, and the only handlers are the \<open>except ValueError\<close> around \<open>int\<close>
  and the ones of the start-up code, so \<open>Exit\<close> and \<open>Raised\<close> end the process: the
  interpreter exits with the given status, and with status 1 for an uncaught exception.
\<close>

datatype outcome = Returned | Blocked | Exit int | Raised pyexc

fun exit_status :: "outcome \<Rightarrow> int option" where
  "exit_status (Exit n) = Some n"
| "exit_status (Raised e) = Some 1"
| "exit_status Returned = None"
| "exit_status Blocked = None"

subsection \<open>\<open>bytes.decode("utf-8")\<close>\<close>

definition continuation :: "nat \<Rightarrow> bool" where
  "continuation b \<longleftrightarrow> 128 \<le> b \<and> b < 192"

definition cons_ok :: "nat \<Rightarrow> pyexc + str \<Rightarrow> pyexc + str" where
  "cons_ok c r = (case r of Inl e \<Rightarrow> Inl e | Inr t \<Rightarrow> Inr (c # t))"

text \<open>
  The strict decoder: shortest forms only, no surrogates, nothing above U+10FFFF; any
  other byte sequence raises \<open>UnicodeDecodeError\<close>.
\<close>

fun utf8 :: "nat list \<Rightarrow> pyexc + str" where
  "utf8 [] = Inr []"
| "utf8 (b # bs) =
    (if b < 128 then cons_ok b (utf8 bs)
     else if 194 \<le> b \<and> b < 224 then
       (case bs of
          c1 # r \<Rightarrow>
            if continuation c1 then cons_ok ((b - 192) * 64 + (c1 - 128)) (utf8 r)
            else Inl UnicodeDecodeError
        | _ \<Rightarrow> Inl UnicodeDecodeError)
     else if 224 \<le> b \<and> b < 240 then
       (case bs of
          c1 # c2 # r \<Rightarrow>
            if (if b = 224 then 160 else 128) \<le> c1 \<and> c1 < (if b = 237 then 160 else 192)
               \<and> continuation c2
            then cons_ok ((b - 224) * 4096 + (c1 - 128) * 64 + (c2 - 128)) (utf8 r)
            else Inl UnicodeDecodeError
        | _ \<Rightarrow> Inl UnicodeDecodeError)
     else if 240 \<le> b \<and> b < 245 then
       (case bs of
          c1 # c2 # c3 # r \<Rightarrow>
            if (if b = 240 then 144 else 128) \<le> c1 \<and> c1 < (if b = 244 then 144 else 192)
               \<and> continuation c2 \<and> continuation c3
            then cons_ok ((b - 240) * 262144 + (c1 - 128) * 4096 + (c2 - 128) * 64 + (c3 - 128))
                   (utf8 r)
            else Inl UnicodeDecodeError
        | _ \<Rightarrow> Inl UnicodeDecodeError)
     else Inl UnicodeDecodeError)"

definition decode :: "byte list \<Rightarrow> pyexc + str" where
  "decode bs = utf8 (map unat bs)"

subsection \<open>\<open>str.strip()\<close>\<close>

text \<open>
  \<open>int_space\<close> is the white space that \<open>int\<close> skips: the six ASCII characters of C's
  \<open>isspace\<close> and, beyond ASCII, the Unicode white space. \<open>str.strip()\<close> also removes
  the four ASCII separators U+001C to U+001F.
\<close>

definition int_space :: "nat \<Rightarrow> bool" where
  "int_space c \<longleftrightarrow>
     (9 \<le> c \<and> c \<le> 13) \<or> c = 32 \<or> c = 133 \<or> c = 160 \<or> c = 5760
     \<or> (8192 \<le> c \<and> c \<le> 8202) \<or> c = 8232 \<or> c = 8233 \<or> c = 8239 \<or> c = 8287
     \<or> c = 12288"

definition str_space :: "nat \<Rightarrow> bool" where
  "str_space c \<longleftrightarrow> int_space c \<or> (28 \<le> c \<and> c \<le> 31)"

definition py_strip :: "str \<Rightarrow> str" where
  "py_strip t = rev (dropWhile str_space (rev (dropWhile str_space t)))"

subsection \<open>\<open>int(str)\<close> and \<open>str(int)\<close>\<close>

text \<open>
  The code points with a decimal digit value come in runs of ten, 0 to 9 in order;
  \<open>decimal_zeros\<close> lists the zero of every run (Unicode 14.0, the table of CPython 3.11).
\<close>

definition decimal_zeros :: "nat list" where
  "decimal_zeros =
    [0x30, 0x660, 0x6f0, 0x7c0, 0x966, 0x9e6, 0xa66, 0xae6, 0xb66, 0xbe6, 0xc66, 0xce6,
     0xd66, 0xde6, 0xe50, 0xed0, 0xf20, 0x1040, 0x1090, 0x17e0, 0x1810, 0x1946, 0x19d0,
     0x1a80, 0x1a90, 0x1b50, 0x1bb0, 0x1c40, 0x1c50, 0xa620, 0xa8d0, 0xa900, 0xa9d0,
     0xa9f0, 0xaa50, 0xabf0, 0xff10, 0x104a0, 0x10d30, 0x11066, 0x110f0, 0x11136,
     0x111d0, 0x112f0, 0x11450, 0x114d0, 0x11650, 0x116c0, 0x11730, 0x118e0, 0x11950,
     0x11c50, 0x11d50, 0x11da0, 0x16a60, 0x16ac0, 0x16b50, 0x1d7ce, 0x1d7d8, 0x1d7e2,
     0x1d7ec, 0x1d7f6, 0x1e140, 0x1e2f0, 0x1e950, 0x1fbf0]"

definition py_decimal :: "nat \<Rightarrow> nat option" where
  "py_decimal c =
     (case List.find (\<lambda>z. z \<le> c \<and> c < z + 10) decimal_zeros of
        None \<Rightarrow> None
      | Some z \<Rightarrow> Some (c - z))"

text \<open>
  The digits of an integer literal: a digit, then digits each preceded by at most one
  underscore. \<open>None\<close> is a syntax error.
\<close>

fun literal_digits :: "str \<Rightarrow> nat list option" where
  "literal_digits [] = None"
| "literal_digits [c] = (case py_decimal c of None \<Rightarrow> None | Some d \<Rightarrow> Some [d])"
| "literal_digits (c # c' # cs) =
     (case py_decimal c of
        None \<Rightarrow> None
      | Some d \<Rightarrow>
          (case (if c' = underscore then literal_digits cs else literal_digits (c' # cs)) of
             None \<Rightarrow> None
           | Some ds \<Rightarrow> Some (d # ds)))"

definition int_max_str_digits :: nat where
  "int_max_str_digits = 4300"

definition digits_value :: "nat list \<Rightarrow> int" where
  "digits_value ds = foldl (\<lambda>a d. 10 * a + int d) 0 ds"

text \<open>
  \<open>int(t)\<close> in base 10: white space, an optional sign, the digits, white space. A
  literal of more than 4300 digits is refused (the interpreter's default limit). Every
  failure is a \<open>ValueError\<close>.
\<close>

definition py_int :: "str \<Rightarrow> pyexc + int" where
  "py_int t =
     (let u = dropWhile int_space t;
          negative = (case u of [] \<Rightarrow> False | c # _ \<Rightarrow> c = minus_sign);
          v = (case u of [] \<Rightarrow> [] | c # r \<Rightarrow> if c = plus_sign \<or> c = minus_sign then r else u)
      in case literal_digits (rev (dropWhile int_space (rev v))) of
           None \<Rightarrow> Inl ValueError
         | Some ds \<Rightarrow>
             if int_max_str_digits < length ds then Inl ValueError
             else Inr (if negative then - digits_value ds else digits_value ds))"

fun digits10 :: "nat \<Rightarrow> str" where
  "digits10 n = (if n < 10 then [48 + n] else digits10 (n div 10) @ [48 + n mod 10])"

declare digits10.simps [simp del]

text \<open>\<open>str(i)\<close>, which is what an f-string field \<open>{i}\<close> of an integer expands to.\<close>

definition py_str :: "int \<Rightarrow> str" where
  "py_str i = (if i < 0 then minus_sign # digits10 (nat (- i)) else digits10 (nat i))"

subsection \<open>Paths, \<open>str.split\<close>, \<open>max\<close> and \<open>glob\<close>\<close>

text \<open>\<open>os.path.basename\<close> (POSIX): what follows the last slash.\<close>

definition basename :: "str \<Rightarrow> str" where
  "basename p = rev (takeWhile (\<lambda>c. c \<noteq> slash) (rev p))"

text \<open>\<open>p.rfind(c)\<close>: the last index of \<open>c\<close>, or -1.\<close>

fun rfind :: "nat \<Rightarrow> str \<Rightarrow> int" where
  "rfind c [] = - 1"
| "rfind c (x # xs) = (let r = rfind c xs in if 0 \<le> r then r + 1 else if x = c then 0 else - 1)"

text \<open>
  \<open>os.path.splitext\<close> (POSIX): the extension starts at the last dot of the last
  component, unless only dots precede it there.
\<close>

definition splitext :: "str \<Rightarrow> str \<times> str" where
  "splitext p =
     (let sepIndex = rfind slash p; dotIndex = rfind dot p
      in if sepIndex < dotIndex
            \<and> list_ex (\<lambda>c. c \<noteq> dot) (drop (nat (sepIndex + 1)) (take (nat dotIndex) p))
         then (take (nat dotIndex) p, drop (nat dotIndex) p)
         else (p, []))"

text \<open>\<open>t.split(sep)\<close> for a separator of one character.\<close>

fun split :: "nat \<Rightarrow> str \<Rightarrow> str list" where
  "split sep [] = [[]]"
| "split sep (c # cs) =
     (if c = sep then [] # split sep cs
      else (case split sep cs of [] \<Rightarrow> [[c]] | p # ps \<Rightarrow> (c # p) # ps))"

text \<open>\<open>xs[1]\<close>\<close>

definition item1 :: "'a list \<Rightarrow> pyexc + 'a" where
  "item1 xs = (case xs of _ # x # _ \<Rightarrow> Inr x | _ \<Rightarrow> Inl IndexError)"

text \<open>\<open>max(xs)\<close> raises \<open>ValueError\<close> on an empty list.\<close>

definition py_max :: "int list \<Rightarrow> pyexc + int" where
  "py_max xs = (case xs of [] \<Rightarrow> Inl ValueError | x # r \<Rightarrow> Inr (fold max r x))"

text \<open>
  \<open>glob.glob(f"{OUTPUT_DIR}/*.csv")\<close>, given the names of the entries of the directory
  in the order the operating system lists them (a directory that does not exist has
  none): the pattern \<open>*.csv\<close> matches a name that ends in \<open>.csv\<close> and does not begin with
  a dot, and each match is returned joined to the directory.
\<close>

definition ishidden :: "str \<Rightarrow> bool" where
  "ishidden n = (case n of [] \<Rightarrow> False | c # _ \<Rightarrow> c = dot)"

definition fnmatch_csv :: "str \<Rightarrow> bool" where
  "fnmatch_csv n \<longleftrightarrow> 4 \<le> length n \<and> drop (length n - 4) n = text_of ''.csv''"

definition glob_csv :: "str \<Rightarrow> str list \<Rightarrow> str list" where
  "glob_csv dir names =
     map (\<lambda>n. dir @ [slash] @ n) (filter (\<lambda>n. \<not> ishidden n \<and> fnmatch_csv n) names)"

section \<open>The program state\<close>

record serial =
  is_open :: bool

datatype level = INFO | FATAL

text \<open>
  The module's global variables, and what the program shows and stores: the records of
  the logger, the lines printed, and the entries (name, content) of the directory
  \<open>OUTPUT_DIR\<close>. \<open>arduino = None\<close> is Python's \<open>None\<close>.
\<close>

record state =
  OUTPUT_DIR :: str
  BAUD :: int
  PORT :: str
  VERBOSE :: bool
  arduino :: "serial option"
  csv_text :: str
  ms_at_start :: int
  ms_since_start :: int
  sigint_count :: int
  logged :: "(level \<times> str) list"
  printed :: "str list"
  directory :: "(str \<times> str) list"

definition header :: str where
  "header = text_of ''Time_Ms,LoadCellReading_Grams'' @ [newline]"

text \<open>The state after the module has been loaded (lines 17 to 24 and 157).\<close>

definition module_state :: "(str \<times> str) list \<Rightarrow> state" where
  "module_state dir =
     \<lparr>OUTPUT_DIR = text_of ''./OutputData'', BAUD = 9600, PORT = text_of ''COM4'',
      VERBOSE = False, arduino = None, csv_text = header, ms_at_start = 0,
      ms_since_start = 0, sigint_count = 0, logged = [], printed = [], directory = dir\<rparr>"

definition log_info :: "str \<Rightarrow> state \<Rightarrow> state" where
  "log_info m s = s\<lparr>logged := logged s @ [(INFO, m)]\<rparr>"

definition log_fatal :: "str \<Rightarrow> state \<Rightarrow> state" where
  "log_fatal m s = s\<lparr>logged := logged s @ [(FATAL, m)]\<rparr>"

definition transport_closed :: "state \<Rightarrow> bool" where
  "transport_closed s = (case arduino s of None \<Rightarrow> True | Some a \<Rightarrow> \<not> is_open a)"

section \<open>startup (lines 120 to 131) and loop\<close>

text \<open>
  The end of \<open>startup\<close>, after the command line has been read: \<open>serial.Serial(PORT, BAUD)\<close>
  either raises \<open>SerialException\<close> (\<open>None\<close> here) or gives the open port; \<open>now\<close> is the
  value of \<open>int(time.time() * 1000)\<close> on line 128.
\<close>

definition connect :: "serial option \<Rightarrow> int \<Rightarrow> state \<Rightarrow> outcome \<times> state" where
  "connect opened now s =
     (case opened of
        None \<Rightarrow>
          (Exit 1,
           log_fatal (text_of ''Check your connections and try again.'')
             (log_fatal (text_of ''Serial Exception: Could not connect to '' @ PORT s
                          @ text_of '' at '' @ py_str (BAUD s) @ text_of '' baud.'') s))
      | Some a \<Rightarrow>
          (Returned,
           (log_info (text_of ''Connected to '' @ PORT s @ text_of '' at '' @ py_str (BAUD s)
                       @ text_of '' baud.'') (s\<lparr>arduino := Some a\<rparr>))
             \<lparr>ms_at_start := now, ms_since_start := 0\<rparr>))"

text \<open>
  One call of \<open>loop()\<close>. Its input is what the environment gives it: the bytes that
  \<open>arduino.readline()\<close> returns together with the value of \<open>int(time.time() * 1000)\<close>
  on line 151, or \<open>None\<close> when no line ever arrives (the port has no read timeout).
\<close>

definition loop :: "(byte list \<times> int) option \<Rightarrow> state \<Rightarrow> outcome \<times> state" where
  "loop input s =
     (if transport_closed s
      then (Exit 1, log_fatal (text_of ''Serial connection closed unexpectedly.'') s)
      else
        (case input of
           None \<Rightarrow> (Blocked, s)
         | Some (line, now) \<Rightarrow>
             (case decode line of
                Inl e \<Rightarrow> (Raised e, s)
              | Inr t \<Rightarrow>
                  (let data = py_strip t in
                   if data = [] then (Returned, s)
                   else
                     (case py_int data of
                        Inl e \<Rightarrow> if e = ValueError then (Returned, s) else (Raised e, s)
                      | Inr v \<Rightarrow>
                          (let s1 = s\<lparr>ms_since_start := now - ms_at_start s\<rparr>;
                               s2 = s1\<lparr>csv_text := csv_text s1 @ py_str (ms_since_start s1)
                                                      @ [comma] @ py_str v @ [newline]\<rparr>
                           in (Returned,
                               if VERBOSE s2
                               then s2\<lparr>printed := printed s2
                                         @ [py_str (ms_since_start s2) @ text_of '' ms: ''
                                            @ py_str v @ text_of '' grams'']\<rparr>
                               else s2)))))))"

section \<open>handle_sigint\<close>

text \<open>
  Lines 174 to 180: the number of a file is the integer between the first and the second
  underscore of its name without the extension; the numbers are computed from left to
  right and the first exception ends the computation.
\<close>

definition file_number :: "str \<Rightarrow> pyexc + int" where
  "file_number file =
     (case item1 (split underscore (fst (splitext (basename file)))) of
        Inl e \<Rightarrow> Inl e
      | Inr field \<Rightarrow> py_int field)"

fun numbers :: "str list \<Rightarrow> pyexc + int list" where
  "numbers [] = Inr []"
| "numbers (file # files) =
     (case file_number file of
        Inl e \<Rightarrow> Inl e
      | Inr n \<Rightarrow> (case numbers files of Inl e \<Rightarrow> Inl e | Inr ns \<Rightarrow> Inr (n # ns)))"

definition next_filename :: "str \<Rightarrow> str list \<Rightarrow> pyexc + str" where
  "next_filename dir names =
     (case numbers (glob_csv dir names) of
        Inl e \<Rightarrow> Inl e
      | Inr ns \<Rightarrow>
          (case py_max ns of
             Inl e \<Rightarrow> Inl e
           | Inr highest \<Rightarrow>
               Inr (text_of ''LoadCellData_'' @ py_str (highest + 1) @ text_of ''.csv'')))"

text \<open>\<open>open(path, "w")\<close> and \<open>write\<close>: the file is created, or its content replaced.\<close>

fun write_file :: "str \<Rightarrow> str \<Rightarrow> (str \<times> str) list \<Rightarrow> (str \<times> str) list" where
  "write_file name text [] = [(name, text)]"
| "write_file name text ((n, c) # es) =
     (if n = name then (n, text) # es else (n, c) # write_file name text es)"

text \<open>
  The body of \<open>handle_sigint\<close>. The function assigns to \<open>sigint_count\<close> (line 163) and
  has no \<open>global\<close> statement, so in its body the name is a local variable; \<open>local\<close> is
  the value of that variable when the body starts, \<open>None\<close> for not bound. The global
  \<open>sigint_count\<close> is neither read nor written. \<open>arduino\<close>, \<open>OUTPUT_DIR\<close> and
  \<open>csv_text\<close> are only read, so they are the globals.
\<close>

definition handle_sigint_body :: "int option \<Rightarrow> state \<Rightarrow> outcome \<times> state" where
  "handle_sigint_body local s =
     (case local of
        None \<Rightarrow> (Raised UnboundLocalError, s)
      | Some count \<Rightarrow>
          if 0 < count
          then (Exit 1, log_fatal (text_of ''SIGINT received twice, exiting.'') s)
          else
            (let s1 = log_info (text_of ''Press CTRL+C again to force exit.'')
                        (log_info
                          (text_of ''SIGINT received. Closing serial connection, saving data, and exiting.'')
                          s)
             in case arduino s1 of
                  None \<Rightarrow> (Raised AttributeError, s1)
                | Some a \<Rightarrow>
                    (let s2 = s1\<lparr>arduino := Some (a\<lparr>is_open := False\<rparr>)\<rparr>
                     in case next_filename (OUTPUT_DIR s2) (map fst (directory s2)) of
                          Inl e \<Rightarrow> (Raised e, s2)
                        | Inr filename \<Rightarrow>
                            (Exit 0,
                             log_info (text_of ''Exiting.'')
                               (log_info
                                 (text_of ''Saved data to '' @ OUTPUT_DIR s2 @ [slash] @ filename)
                                 (s2\<lparr>directory :=
                                       write_file filename (csv_text s2) (directory s2)\<rparr>))))))"

text \<open>
  A call of \<open>handle_sigint\<close> with the given number of positional arguments. The function
  is declared without parameters (line 158), so a call with arguments raises
  \<open>TypeError\<close> before the body starts; in a call without arguments the body starts with
  its local variable not bound.
\<close>

definition handle_sigint :: "nat \<Rightarrow> state \<Rightarrow> outcome \<times> state" where
  "handle_sigint nargs s =
     (if nargs = 0 then handle_sigint_body None s else (Raised TypeError, s))"

text \<open>
  Line 188 installs the function as the handler of SIGINT; the interpreter calls a
  handler with two arguments, the signal number and the current stack frame.
\<close>

definition deliver_sigint :: "state \<Rightarrow> outcome \<times> state" where
  "deliver_sigint s = handle_sigint 2 s"

section \<open>A session\<close>

text \<open>
  What happens to the process while \<open>while True: loop()\<close> runs: a line arrives (with the
  clock value of that iteration), or SIGINT is delivered. When the events are used up
  the program is left in its next call of \<open>loop\<close>, with no line to come.
\<close>

datatype event = Line "byte list" int | Sigint

fun run :: "event list \<Rightarrow> state \<Rightarrow> outcome \<times> state" where
  "run [] s = loop None s"
| "run (Line b now # es) s =
     (case loop (Some (b, now)) s of
        (Returned, s') \<Rightarrow> run es s'
      | r \<Rightarrow> r)"
| "run (Sigint # es) s =
     (case deliver_sigint s of
        (Returned, s') \<Rightarrow> run es s'
      | r \<Rightarrow> r)"

definition startup :: "serial option \<Rightarrow> int \<Rightarrow> event list \<Rightarrow> state \<Rightarrow> outcome \<times> state" where
  "startup opened now es s =
     (case connect opened now s of
        (Returned, s') \<Rightarrow> run es s'
      | r \<Rightarrow> r)"


section \<open>The readings of a session\<close>

text \<open>
  The program keeps no list of readings: it appends one row of text per reading to
  \<open>csv_text\<close>. The definitions below name what the properties speak of: the integer
  that a line parses to, the reading (elapsed milliseconds, value) that a line yields
  when it arrives at clock value \<open>now\<close> in a session started at \<open>start\<close>, and the text
  of a reading's row.
\<close>

definition decodable :: "byte list \<Rightarrow> bool" where
  "decodable b = (case decode b of Inl e \<Rightarrow> False | Inr t \<Rightarrow> True)"

definition parsed :: "byte list \<Rightarrow> int option" where
  "parsed b =
     (case decode b of
        Inl e \<Rightarrow> None
      | Inr t \<Rightarrow> (case py_int (py_strip t) of Inl e \<Rightarrow> None | Inr v \<Rightarrow> Some v))"

definition reading :: "int \<Rightarrow> byte list \<times> int \<Rightarrow> (int \<times> int) option" where
  "reading start ln = (case parsed (fst ln) of None \<Rightarrow> None | Some v \<Rightarrow> Some (snd ln - start, v))"

definition readings :: "int \<Rightarrow> (byte list \<times> int) list \<Rightarrow> (int \<times> int) list" where
  "readings start ls = List.map_filter (reading start) ls"

definition row :: "int \<times> int \<Rightarrow> str" where
  "row r = py_str (fst r) @ [comma] @ py_str (snd r) @ [newline]"

definition rows :: "(int \<times> int) list \<Rightarrow> str" where
  "rows rs = concat (map row rs)"

text \<open>The number of lines of a CSV text after its header line.\<close>

definition data_rows :: "str \<Rightarrow> nat" where
  "data_rows csv = count_list csv newline - 1"

text \<open>The events of a session in which only lines arrive.\<close>

definition lines :: "(byte list \<times> int) list \<Rightarrow> event list" where
  "lines ls = map (\<lambda>ln. Line (fst ln) (snd ln)) ls"

text \<open>
  The characters that can occur in a line that \<open>int\<close> accepts after \<open>strip\<close>: white
  space, a sign, the underscore and the decimal digits.
\<close>

definition numeric_char :: "nat \<Rightarrow> bool" where
  "numeric_char c \<longleftrightarrow>
     str_space c \<or> c = plus_sign \<or> c = minus_sign \<or> c = underscore
     \<or> (case py_decimal c of None \<Rightarrow> False | Some d \<Rightarrow> True)"

subsection \<open>Concrete inputs\<close>

text \<open>
  A session connected at clock value 1000 with the default settings, over a directory
  with the given entries, and the four lines \<open>12\<close>, the empty line, \<open>abc\<close> and \<open>45\<close>,
  each ended by a line feed.
\<close>

definition open_port :: serial where
  "open_port = \<lparr>is_open = True\<rparr>"

definition running :: "(str \<times> str) list \<Rightarrow> state" where
  "running dir = snd (connect (Some open_port) 1000 (module_state dir))"

definition scenario :: "(byte list \<times> int) list" where
  "scenario =
     [(bytes_of ''12'' @ [10], 1005), ([10], 1006), (bytes_of ''abc'' @ [10], 1007),
      (bytes_of ''45'' @ [10], 1009)]"

text \<open>
  A session whose port has been closed behind the program's back, and a line that is not
  UTF-8.
\<close>

definition unplugged :: state where
  "unplugged = (running [])\<lparr>arduino := Some \<lparr>is_open = False\<rparr>\<rparr>"

definition bad_line :: "byte list" where
  "bad_line = [0xFF, 10]"

text \<open>The record that line 160 would write to the log.\<close>

definition forced_exit_record :: "level \<times> str" where
  "forced_exit_record = (FATAL, text_of ''SIGINT received twice, exiting.'')"

text \<open>The records of level FATAL in a log.\<close>

definition fatal_records :: "(level \<times> str) list \<Rightarrow> (level \<times> str) list" where
  "fatal_records rs = filter (\<lambda>r. fst r = FATAL) rs"

section \<open>Facts about the library functions\<close>

lemmas chars = newline_def plus_sign_def comma_def minus_sign_def dot_def slash_def underscore_def

lemmas evals = text_of_def bytes_of_def chars decode_def cons_ok_def continuation_def
  py_strip_def str_space_def int_space_def py_int_def py_decimal_def decimal_zeros_def
  int_max_str_digits_def digits_value_def parsed_def Let_def

lemma py_int_error: "py_int t = Inl e \<Longrightarrow> e = ValueError"
  by (auto simp: py_int_def Let_def split: option.splits if_splits)

lemma py_int_empty: "py_int [] = Inl ValueError"
  by (simp add: py_int_def)

lemma digits10_chars: "c \<in> set (digits10 n) \<Longrightarrow> 48 \<le> c \<and> c < 58"
proof (induction n rule: digits10.induct)
  case (1 n)
  show ?case
  proof (cases "n < 10")
    case True
    with "1.prems" show ?thesis by (simp add: digits10.simps [of n])
  next
    case False
    with "1.prems" "1.IH" show ?thesis
      by (auto simp: digits10.simps [of n])
  qed
qed

lemma py_str_no_newline: "count_list (py_str i) newline = 0"
  by (auto simp: py_str_def newline_def minus_sign_def count_list_0_iff dest: digits10_chars)

lemma in_dropWhile: "x \<in> set xs \<Longrightarrow> \<not> P x \<Longrightarrow> x \<in> set (dropWhile P xs)"
  by (induction xs) auto

lemma in_strip_ends: "x \<in> set xs \<Longrightarrow> \<not> P x \<Longrightarrow> x \<in> set (rev (dropWhile P (rev (dropWhile P xs))))"
  by (simp add: in_dropWhile)

lemma literal_digits_chars:
  "literal_digits w = Some ds \<Longrightarrow> c \<in> set w \<Longrightarrow> c = underscore \<or> py_decimal c \<noteq> None"
  by (induction w arbitrary: ds rule: literal_digits.induct)
     (auto split: option.splits if_splits)

lemma py_int_foreign_char:
  assumes "c \<in> set d" "\<not> int_space c" "c \<noteq> plus_sign" "c \<noteq> minus_sign"
    "c \<noteq> underscore" "py_decimal c = None"
  shows "py_int d = Inl ValueError"
proof -
  define u where "u = dropWhile int_space d"
  define v where "v = (case u of [] \<Rightarrow> [] | x # r \<Rightarrow> if x = plus_sign \<or> x = minus_sign then r else u)"
  define w where "w = rev (dropWhile int_space (rev v))"
  have "c \<in> set u" using assms(1,2) by (simp add: u_def in_dropWhile)
  then have "c \<in> set v" using assms(3,4) by (cases u) (auto simp: v_def)
  then have "c \<in> set w" using assms(2) by (simp add: w_def in_dropWhile)
  then have "literal_digits w = None"
    using literal_digits_chars [of w _ c] assms(5,6) by (cases "literal_digits w") auto
  then show ?thesis
    by (simp add: py_int_def Let_def u_def [symmetric] v_def [symmetric] w_def [symmetric])
qed

lemma py_int_non_numeric:
  assumes "c \<in> set t" "\<not> numeric_char c"
  shows "py_int (py_strip t) = Inl ValueError"
proof -
  from assms(2) have ns: "\<not> str_space c" and rest: "\<not> int_space c" "c \<noteq> plus_sign"
    "c \<noteq> minus_sign" "c \<noteq> underscore" "py_decimal c = None"
    by (auto simp: numeric_char_def str_space_def split: option.splits)
  have "c \<in> set (py_strip t)"
    unfolding py_strip_def using assms(1) ns by (rule in_strip_ends)
  then show ?thesis using rest by (rule py_int_foreign_char)
qed

lemma strip_whitespace_only: "list_all str_space t \<Longrightarrow> py_strip t = []"
proof -
  assume "list_all str_space t"
  then have "dropWhile str_space t = []" by (simp add: list_all_iff)
  then show ?thesis unfolding py_strip_def by (simp only: rev.simps dropWhile.simps)
qed

section \<open>The ingestion loop\<close>

lemma loop_unparsed:
  assumes "\<not> transport_closed s" "decodable b" "parsed b = None"
  shows "loop (Some (b, now)) s = (Returned, s)"
  using assms
  by (auto simp: loop_def decodable_def parsed_def Let_def dest: py_int_error split: sum.splits)

lemma loop_parsed:
  assumes "\<not> transport_closed s" "parsed b = Some v"
  shows "fst (loop (Some (b, now)) s) = Returned"
    and "csv_text (snd (loop (Some (b, now)) s)) = csv_text s @ row (now - ms_at_start s, v)"
    and "ms_at_start (snd (loop (Some (b, now)) s)) = ms_at_start s"
    and "arduino (snd (loop (Some (b, now)) s)) = arduino s"
    and "directory (snd (loop (Some (b, now)) s)) = directory s"
    and "logged (snd (loop (Some (b, now)) s)) = logged s"
  using assms
  by (auto simp: loop_def parsed_def Let_def row_def py_int_empty split: sum.splits)

lemma loop_drops:
  assumes "\<not> transport_closed s" "decode b = Inr t" "py_int (py_strip t) = Inl ValueError"
  shows "loop (Some (b, now)) s = (Returned, s)"
  using assms by (simp add: loop_def Let_def)

lemma readings_Cons:
  "readings start (ln # ls) =
     (case parsed (fst ln) of None \<Rightarrow> readings start ls
      | Some v \<Rightarrow> (snd ln - start, v) # readings start ls)"
  by (simp add: readings_def List.map_filter_simps reading_def split: option.splits)

lemma readings_Nil: "readings start [] = []"
  by (simp add: readings_def List.map_filter_simps)

lemma run_lines:
  assumes "\<not> transport_closed s" "list_all decodable (map fst ls)"
  shows "fst (run (lines ls) s) = Blocked
       \<and> csv_text (snd (run (lines ls) s)) = csv_text s @ rows (readings (ms_at_start s) ls)
       \<and> ms_at_start (snd (run (lines ls) s)) = ms_at_start s
       \<and> arduino (snd (run (lines ls) s)) = arduino s
       \<and> directory (snd (run (lines ls) s)) = directory s
       \<and> logged (snd (run (lines ls) s)) = logged s"
  using assms
proof (induction ls arbitrary: s)
  case Nil
  then show ?case by (simp add: lines_def loop_def readings_Nil rows_def)
next
  case (Cons ln ls)
  obtain b now where ln: "ln = (b, now)" by (cases ln)
  from Cons.prems have dec: "decodable b" and rest: "list_all decodable (map fst ls)"
    by (simp_all add: ln)
  show ?case
  proof (cases "parsed b")
    case None
    have step: "loop (Some (b, now)) s = (Returned, s)"
      using Cons.prems(1) dec None by (rule loop_unparsed)
    have "run (lines (ln # ls)) s = run (lines ls) s"
      by (simp add: lines_def ln step)
    with Cons.IH [OF Cons.prems(1) rest] None show ?thesis
      by (simp add: readings_Cons ln)
  next
    case (Some v)
    define s' where "s' = snd (loop (Some (b, now)) s)"
    note lp = loop_parsed [OF Cons.prems(1) Some, of now, folded s'_def]
    have step: "loop (Some (b, now)) s = (Returned, s')"
      using lp(1) by (simp add: s'_def prod_eq_iff)
    have open': "\<not> transport_closed s'"
      using Cons.prems(1) lp(4) by (simp add: transport_closed_def)
    have "run (lines (ln # ls)) s = run (lines ls) s'"
      by (simp add: lines_def ln step)
    with Cons.IH [OF open' rest] Some lp show ?thesis
      by (simp add: readings_Cons ln rows_def)
  qed
qed

lemma count_row: "count_list (row r) newline = 1"
  by (simp add: row_def py_str_no_newline comma_def newline_def) (simp add: py_str_no_newline [unfolded newline_def])

lemma count_rows: "count_list (rows rs) newline = length rs"
  by (induction rs) (simp_all add: rows_def count_row)

lemma count_header: "count_list header newline = 1"
  by (simp add: header_def text_of_def newline_def)

lemma values_readings: "map snd (readings start ls) = List.map_filter parsed (map fst ls)"
  by (induction ls) (auto simp: readings_Cons readings_Nil List.map_filter_simps split: option.splits)

lemma elapsed_readings: "map fst (readings start ls) = map (\<lambda>ln. snd ln - start) (filter (\<lambda>ln. parsed (fst ln) \<noteq> None) ls)"
  by (induction ls) (auto simp: readings_Cons readings_Nil split: option.splits)

lemma sorted_elapsed: "sorted (map snd ls) \<Longrightarrow> sorted (map fst (readings start ls))"
  unfolding elapsed_readings
  by (induction ls) (auto simp: )

lemma connect_Some:
  "fst (connect (Some a) now s) = Returned"
  "arduino (snd (connect (Some a) now s)) = Some a"
  "csv_text (snd (connect (Some a) now s)) = csv_text s"
  "ms_at_start (snd (connect (Some a) now s)) = now"
  "directory (snd (connect (Some a) now s)) = directory s"
  "OUTPUT_DIR (snd (connect (Some a) now s)) = OUTPUT_DIR s"
  by (simp_all add: connect_def log_info_def)

lemma running_fields:
  "arduino (running dir) = Some open_port" "csv_text (running dir) = header"
  "ms_at_start (running dir) = 1000" "directory (running dir) = dir"
  "OUTPUT_DIR (running dir) = text_of ''./OutputData''"
  by (simp_all add: running_def connect_Some module_state_def)

lemma running_open: "\<not> transport_closed (running dir)"
  by (simp add: transport_closed_def running_fields open_port_def)

lemma scenario_decodable: "list_all decodable (map fst scenario)"
  by (simp add: scenario_def decodable_def evals)

lemma scenario_readings: "readings 1000 scenario = [(5, 12), (9, 45)]"
  by (simp add: scenario_def readings_def List.map_filter_simps reading_def evals)

lemma scenario_rows:
  "rows [(5, 12), (9, 45)] = text_of ''5,12'' @ [newline] @ text_of ''9,45'' @ [newline]"
  by (simp add: rows_def row_def py_str_def digits10.simps text_of_def chars)

text \<open>
  C4. Whatever lines arrive, the rows added to the CSV text are the readings of the lines
  that parse as integers, in the order of arrival: from a session whose CSV text is the
  header, the text becomes the header followed by one row per such line, the values of the
  rows are the parsed integers in arrival order, and the number of data rows is the number
  of lines that parsed. The program is then waiting for the next line. For the lines
  \<open>12\<close>, empty, \<open>abc\<close>, \<open>45\<close> this leaves two rows, with the values 12 and 45.
\<close>

theorem rows_are_the_parsed_lines:
  assumes "\<not> transport_closed s" and "list_all decodable (map fst ls)"
    and "csv_text s = header"
  shows "fst (run (lines ls) s) = Blocked
       \<and> csv_text (snd (run (lines ls) s)) = header @ rows (readings (ms_at_start s) ls)
       \<and> map snd (readings (ms_at_start s) ls) = List.map_filter parsed (map fst ls)
       \<and> data_rows (csv_text (snd (run (lines ls) s)))
           = length (List.map_filter parsed (map fst ls))"
proof -
  note r = run_lines [OF assms(1,2)]
  have v: "map snd (readings (ms_at_start s) ls) = List.map_filter parsed (map fst ls)"
    by (rule values_readings)
  have "length (List.map_filter parsed (map fst ls)) = length (readings (ms_at_start s) ls)"
    using v [symmetric] by simp
  moreover have "data_rows (csv_text (snd (run (lines ls) s))) = length (readings (ms_at_start s) ls)"
    using r by (simp add: data_rows_def assms(3) count_header count_rows)
  ultimately show ?thesis using r v by (simp add: assms(3))
qed

theorem rows_are_the_parsed_lines_witness:
  "\<not> transport_closed (running []) \<and> list_all decodable (map fst scenario)
   \<and> csv_text (running []) = header
   \<and> fst (run (lines scenario) (running [])) = Blocked
   \<and> csv_text (snd (run (lines scenario) (running [])))
       = header @ text_of ''5,12'' @ [newline] @ text_of ''9,45'' @ [newline]
   \<and> List.map_filter parsed (map fst scenario) = [12, 45]
   \<and> data_rows (csv_text (snd (run (lines scenario) (running [])))) = 2"
proof -
  have h: "csv_text (running []) = header" by (simp add: running_fields)
  note t = rows_are_the_parsed_lines [OF running_open [of "[]"] scenario_decodable h]
  have v: "List.map_filter parsed (map fst scenario) = [12, 45]"
    using t by (simp add: running_fields scenario_readings)
  have c: "csv_text (snd (run (lines scenario) (running [])))
             = header @ text_of ''5,12'' @ [newline] @ text_of ''9,45'' @ [newline]"
    using t by (simp add: running_fields scenario_readings scenario_rows)
  have n: "data_rows (csv_text (snd (run (lines scenario) (running [])))) = 2"
  proof -
    from t have "data_rows (csv_text (snd (run (lines scenario) (running []))))
                   = length (List.map_filter parsed (map fst scenario))"
      by blast
    also have "\<dots> = 2" by (simp add: v)
    finally show ?thesis .
  qed
  show ?thesis
    using t running_open [of "[]"] scenario_decodable h v c n by blast
qed

text \<open>
  C5. A line that is malformed is dropped without an error: when the decoded line is empty
  or all white space, or contains a character that cannot occur in an integer, or fails to
  parse in any other way, the call of \<open>loop\<close> returns normally and leaves the whole
  state, the CSV text included, as it was.
\<close>

theorem malformed_line_is_dropped:
  assumes "\<not> transport_closed s" and "decode b = Inr t"
    and "list_all str_space t \<or> list_ex (\<lambda>c. \<not> numeric_char c) t
         \<or> py_int (py_strip t) = Inl ValueError"
  shows "loop (Some (b, now)) s = (Returned, s)"
proof -
  have "py_int (py_strip t) = Inl ValueError"
    using assms(3) by (auto simp: strip_whitespace_only py_int_empty list_ex_iff intro: py_int_non_numeric)
  with assms(1,2) show ?thesis by (rule loop_drops)
qed

theorem malformed_line_is_dropped_witness:
  "\<not> transport_closed (running []) \<and> decode (bytes_of ''abc'' @ [10]) = Inr (text_of ''abc'' @ [newline])
   \<and> list_ex (\<lambda>c. \<not> numeric_char c) (text_of ''abc'' @ [newline])
   \<and> loop (Some (bytes_of ''abc'' @ [10], 1007)) (running []) = (Returned, running [])"
proof -
  have d: "decode (bytes_of ''abc'' @ [10]) = Inr (text_of ''abc'' @ [newline])"
    by (simp add: evals)
  have n: "list_ex (\<lambda>c. \<not> numeric_char c) (text_of ''abc'' @ [newline])"
    by (simp add: numeric_char_def evals)
  have l: "loop (Some (bytes_of ''abc'' @ [10], 1007)) (running []) = (Returned, running [])"
    using malformed_line_is_dropped [OF running_open [of "[]"] d] n by blast
  show ?thesis
    using running_open [of "[]"] d n l by blast
qed

text \<open>
  C6. When the clock never goes back, the elapsed times of the rows are non-decreasing.
  Each one is the clock value at the line's arrival minus the start time, and the start
  time is the clock value at which \<open>startup\<close> connected: it is still that value after
  all the lines.
\<close>

theorem elapsed_is_non_decreasing:
  assumes "is_open a" and "list_all decodable (map fst ls)" and "sorted (map snd ls)"
  shows "csv_text (snd (startup (Some a) t0 (lines ls) s0)) = csv_text s0 @ rows (readings t0 ls)
       \<and> map fst (readings t0 ls)
           = map (\<lambda>ln. snd ln - t0) (filter (\<lambda>ln. parsed (fst ln) \<noteq> None) ls)
       \<and> sorted (map fst (readings t0 ls))
       \<and> ms_at_start (snd (startup (Some a) t0 (lines ls) s0)) = t0"
proof -
  define s where "s = snd (connect (Some a) t0 s0)"
  have c: "connect (Some a) t0 s0 = (Returned, s)"
    using connect_Some(1) [of a t0 s0] by (simp add: s_def prod_eq_iff)
  have st: "startup (Some a) t0 (lines ls) s0 = run (lines ls) s"
    by (simp add: startup_def c)
  have op: "\<not> transport_closed s"
    using assms(1) by (simp add: transport_closed_def s_def connect_Some)
  note r = run_lines [OF op assms(2)]
  have f: "csv_text s = csv_text s0" "ms_at_start s = t0"
    by (simp_all add: s_def connect_Some)
  show ?thesis
    using r sorted_elapsed [OF assms(3), of t0] by (simp add: st f elapsed_readings)
qed

theorem elapsed_is_non_decreasing_witness:
  "is_open open_port \<and> list_all decodable (map fst scenario) \<and> sorted (map snd scenario)
   \<and> csv_text (snd (startup (Some open_port) 1000 (lines scenario) (module_state [])))
       = header @ text_of ''5,12'' @ [newline] @ text_of ''9,45'' @ [newline]
   \<and> map fst (readings 1000 scenario) = [5, 9]
   \<and> ms_at_start (snd (startup (Some open_port) 1000 (lines scenario) (module_state []))) = 1000"
proof -
  have o: "is_open open_port" by (simp add: open_port_def)
  have so: "sorted (map snd scenario)" by (simp add: scenario_def)
  show ?thesis
    using elapsed_is_non_decreasing [OF o scenario_decodable so, of 1000 "module_state []"]
    by (simp add: o so scenario_decodable scenario_readings scenario_rows module_state_def)
qed


section \<open>Decoding failures and the closed transport\<close>

lemma cons_ok_error: "cons_ok c r = Inl e \<Longrightarrow> r = Inl e"
  by (cases r) (simp_all add: cons_ok_def)

lemma utf8_error: "utf8 bs = Inl e \<Longrightarrow> e = UnicodeDecodeError"
proof (induction bs arbitrary: e rule: utf8.induct)
  case 1
  then show ?case by simp
next
  case (2 b bs)
  consider (one) "b < 128" | (two) "\<not> b < 128" "194 \<le> b \<and> b < 224"
    | (three) "\<not> b < 128" "\<not> (194 \<le> b \<and> b < 224)" "224 \<le> b \<and> b < 240"
    | (four) "\<not> b < 128" "\<not> (194 \<le> b \<and> b < 224)" "\<not> (224 \<le> b \<and> b < 240)"
        "240 \<le> b \<and> b < 245"
    | (bad) "\<not> b < 128" "\<not> (194 \<le> b \<and> b < 224)" "\<not> (224 \<le> b \<and> b < 240)"
        "\<not> (240 \<le> b \<and> b < 245)"
    by blast
  then show ?case
  proof cases
    case one
    with "2.prems" have "utf8 bs = Inl e" by (simp add: cons_ok_error)
    with "2.IH"(1) one show ?thesis by simp
  next
    case two
    show ?thesis
    proof (cases bs)
      case Nil
      with "2.prems" two show ?thesis by simp
    next
      case (Cons c1 r)
      show ?thesis
      proof (cases "continuation c1")
        case True
        with "2.prems" two Cons have "utf8 r = Inl e" by (simp add: cons_ok_error)
        with "2.IH"(2) [OF two Cons True] show ?thesis by simp
      next
        case False
        with "2.prems" two Cons show ?thesis by simp
      qed
    qed
  next
    case three
    show ?thesis
    proof (cases bs)
      case Nil
      with "2.prems" three show ?thesis by simp
    next
      case c1: (Cons c1 r1)
      show ?thesis
      proof (cases r1)
        case Nil
        with "2.prems" three c1 show ?thesis by simp
      next
        case c2: (Cons c2 r)
        show ?thesis
        proof (cases "(if b = 224 then 160 else 128) \<le> c1 \<and> c1 < (if b = 237 then 160 else 192)
               \<and> continuation c2")
          case True
          with "2.prems" three c1 c2 have "utf8 r = Inl e"
            by (simp add: cons_ok_error)
          with "2.IH"(3) [OF three c1 c2 True] show ?thesis by simp
        next
          case False
          with "2.prems" three c1 c2 show ?thesis by simp
        qed
      qed
    qed
  next
    case four
    show ?thesis
    proof (cases bs)
      case Nil
      with "2.prems" four show ?thesis by simp
    next
      case c1: (Cons c1 r1)
      show ?thesis
      proof (cases r1)
        case Nil
        with "2.prems" four c1 show ?thesis by simp
      next
        case c2: (Cons c2 r2)
        show ?thesis
        proof (cases r2)
          case Nil
          with "2.prems" four c1 c2 show ?thesis by simp
        next
          case c3: (Cons c3 r)
          show ?thesis
          proof (cases "(if b = 240 then 144 else 128) \<le> c1 \<and> c1 < (if b = 244 then 144 else 192)
               \<and> continuation c2 \<and> continuation c3")
            case True
            with "2.prems" four c1 c2 c3 have "utf8 r = Inl e"
              by (simp add: cons_ok_error)
            with "2.IH"(4) [OF four c1 c2 c3 True] show ?thesis by simp
          next
            case False
            with "2.prems" four c1 c2 c3 show ?thesis by simp
          qed
        qed
      qed
    qed
  next
    case bad
    with "2.prems" show ?thesis by simp
  qed
qed

lemma decode_error: "decode b = Inl e \<Longrightarrow> e = UnicodeDecodeError"
  by (auto simp: decode_def dest: utf8_error)

lemma loop_closed:
  "transport_closed s \<Longrightarrow>
   loop input s = (Exit 1, log_fatal (text_of ''Serial connection closed unexpectedly.'') s)"
  by (simp add: loop_def)

lemma loop_silence: "\<not> transport_closed s \<Longrightarrow> loop None s = (Blocked, s)"
  by (simp add: loop_def)

lemma loop_undecodable:
  "\<not> transport_closed s \<Longrightarrow> decode b = Inl e \<Longrightarrow> loop (Some (b, now)) s = (Raised UnicodeDecodeError, s)"
  using decode_error [of b e] by (simp add: loop_def)

lemma loop_open_facts:
  assumes "\<not> transport_closed s"
  shows "logged (snd (loop input s)) = logged s"
    and "arduino (snd (loop input s)) = arduino s"
    and "directory (snd (loop input s)) = directory s"
    and "ms_at_start (snd (loop input s)) = ms_at_start s"
    and "fst (loop input s) \<noteq> Exit n"
proof -
  have "logged (snd (loop input s)) = logged s \<and> arduino (snd (loop input s)) = arduino s
      \<and> directory (snd (loop input s)) = directory s
      \<and> ms_at_start (snd (loop input s)) = ms_at_start s \<and> fst (loop input s) \<noteq> Exit n"
  proof (cases input)
    case None
    then show ?thesis by (simp add: loop_silence [OF assms])
  next
    case (Some ln)
    obtain b now where ln: "ln = (b, now)" by (cases ln)
    show ?thesis
    proof (cases "decode b")
      case (Inl e)
      then show ?thesis by (simp add: Some ln loop_undecodable [OF assms Inl])
    next
      case (Inr t)
      then have dec: "decodable b" by (simp add: decodable_def)
      show ?thesis
      proof (cases "parsed b")
        case None
        then show ?thesis by (simp add: Some ln loop_unparsed [OF assms dec None])
      next
        case (Some v)
        then show ?thesis using loop_parsed [OF assms Some, of now] by (simp add: \<open>input = Some ln\<close> ln)
      qed
    qed
  qed
  then show "logged (snd (loop input s)) = logged s"
    and "arduino (snd (loop input s)) = arduino s"
    and "directory (snd (loop input s)) = directory s"
    and "ms_at_start (snd (loop input s)) = ms_at_start s"
    and "fst (loop input s) \<noteq> Exit n"
    by simp_all
qed

lemma loop_keeps:
  "arduino (snd (loop input s)) = arduino s" "directory (snd (loop input s)) = directory s"
proof -
  have "arduino (snd (loop input s)) = arduino s \<and> directory (snd (loop input s)) = directory s"
  proof (cases "transport_closed s")
    case True
    then show ?thesis by (simp add: loop_closed log_fatal_def)
  next
    case False
    then show ?thesis by (simp add: loop_open_facts)
  qed
  then show "arduino (snd (loop input s)) = arduino s" "directory (snd (loop input s)) = directory s"
    by simp_all
qed

lemma bad_line_undecodable: "decode bad_line = Inl UnicodeDecodeError"
  by (simp add: bad_line_def evals)

text \<open>
  C8, as the claim states it, fails: for the line with the single byte FF the call of
  \<open>loop\<close> ends with \<open>UnicodeDecodeError\<close>, and the program has logged nothing.
\<close>

theorem undecodable_line_logs_nothing:
  "fst (loop (Some (bad_line, 1005)) (running [])) = Raised UnicodeDecodeError
   \<and> logged (snd (loop (Some (bad_line, 1005)) (running []))) = logged (running [])"
  by (simp add: loop_undecodable [OF running_open bad_line_undecodable])

text \<open>
  C8, amended. A line that is not UTF-8 is fatal: \<open>UnicodeDecodeError\<close> leaves \<open>loop\<close>
  and nothing catches it, the state is as it was (no row, and no record in the log), no
  later event is looked at, and the interpreter ends the process with status 1. A line
  that fails to parse as an integer, in contrast, is dropped and the loop goes on.
\<close>

theorem undecodable_line_is_fatal:
  assumes "\<not> transport_closed s" and "decode b = Inl e"
  shows "loop (Some (b, now)) s = (Raised UnicodeDecodeError, s)
       \<and> run (Line b now # es) s = (Raised UnicodeDecodeError, s)
       \<and> exit_status (Raised UnicodeDecodeError) = Some 1"
  by (simp add: loop_undecodable [OF assms])

theorem undecodable_line_is_fatal_witness:
  "\<not> transport_closed (running []) \<and> decode bad_line = Inl UnicodeDecodeError
   \<and> loop (Some (bad_line, 1005)) (running []) = (Raised UnicodeDecodeError, running [])
   \<and> run (Line bad_line 1005 # lines scenario) (running []) = (Raised UnicodeDecodeError, running [])
   \<and> exit_status (Raised UnicodeDecodeError) = Some 1"
  using undecodable_line_is_fatal [OF running_open [of "[]"] bad_line_undecodable, of 1005 "lines scenario"]
    running_open [of "[]"] bad_line_undecodable
  by blast

lemma loop_closed_logged:
  "transport_closed s \<Longrightarrow>
   logged (snd (loop input s))
     = logged s @ [(FATAL, text_of ''Serial connection closed unexpectedly.'')]"
  by (simp add: loop_closed log_fatal_def)

lemma unplugged_closed: "transport_closed unplugged"
  by (simp add: unplugged_def transport_closed_def)

lemma unplugged_logged:
  "logged unplugged = [(INFO, text_of ''Connected to COM4 at 9600 baud.'')]"
  by (simp add: unplugged_def running_def connect_def module_state_def log_info_def
        py_str_def digits10.simps text_of_def)

text \<open>
  C9. Every call of \<open>loop\<close> first checks the port. When it is closed (or was never
  opened) the call reports the failure, adding the record \<open>Serial connection closed
  unexpectedly.\<close> of level FATAL to the log, and leaves through \<open>sys.exit(1)\<close>, whatever
  the input; so does the session at its next iteration. The loop shuts nothing down by
  other means: \<open>sys.exit\<close> is reached only through this check, and no call of \<open>loop\<close>
  changes the port or the output directory.
\<close>

theorem closed_transport_is_fatal:
  "(transport_closed s \<longrightarrow>
      loop input s = (Exit 1, log_fatal (text_of ''Serial connection closed unexpectedly.'') s)
      \<and> run [] s = (Exit 1, log_fatal (text_of ''Serial connection closed unexpectedly.'') s)
      \<and> run (Line b now # es) s
          = (Exit 1, log_fatal (text_of ''Serial connection closed unexpectedly.'') s)
      \<and> logged (snd (loop input s))
          = logged s @ [(FATAL, text_of ''Serial connection closed unexpectedly.'')]
      \<and> logged (snd (run (Line b now # es) s))
          = logged s @ [(FATAL, text_of ''Serial connection closed unexpectedly.'')]
      \<and> exit_status (fst (loop input s)) = Some 1)
   \<and> (fst (loop input s) = Exit n \<longrightarrow> transport_closed s \<and> n = 1)
   \<and> arduino (snd (loop input s)) = arduino s
   \<and> directory (snd (loop input s)) = directory s"
proof (intro conjI impI)
  assume c: "transport_closed s"
  show l: "loop input s = (Exit 1, log_fatal (text_of ''Serial connection closed unexpectedly.'') s)"
    using c by (rule loop_closed)
  show "run [] s = (Exit 1, log_fatal (text_of ''Serial connection closed unexpectedly.'') s)"
    using loop_closed [OF c, of None] by simp
  show r: "run (Line b now # es) s
          = (Exit 1, log_fatal (text_of ''Serial connection closed unexpectedly.'') s)"
    using loop_closed [OF c, of "Some (b, now)"] by simp
  show "logged (snd (loop input s))
          = logged s @ [(FATAL, text_of ''Serial connection closed unexpectedly.'')]"
    using c by (rule loop_closed_logged)
  show "logged (snd (run (Line b now # es) s))
          = logged s @ [(FATAL, text_of ''Serial connection closed unexpectedly.'')]"
    by (simp only: r snd_conv) (simp add: log_fatal_def)
  show "exit_status (fst (loop input s)) = Some 1"
    by (simp add: l)
next
  assume e: "fst (loop input s) = Exit n"
  show "transport_closed s"
    using e loop_open_facts(5) [of s input n] by blast
  then show "n = 1"
    using e loop_closed [of s input] by simp
next
  show "arduino (snd (loop input s)) = arduino s" by (rule loop_keeps)
  show "directory (snd (loop input s)) = directory s" by (rule loop_keeps)
qed

theorem closed_transport_is_fatal_witness:
  "transport_closed unplugged
   \<and> fst (loop None unplugged) = Exit 1
   \<and> exit_status (fst (loop None unplugged)) = Some 1
   \<and> logged (snd (loop None unplugged))
       = [(INFO, text_of ''Connected to COM4 at 9600 baud.''),
          (FATAL, text_of ''Serial connection closed unexpectedly.'')]
   \<and> logged (snd (run (Line bad_line 1005 # []) unplugged))
       = [(INFO, text_of ''Connected to COM4 at 9600 baud.''),
          (FATAL, text_of ''Serial connection closed unexpectedly.'')]
   \<and> arduino (snd (loop None unplugged)) = arduino unplugged
   \<and> directory (snd (loop None unplugged)) = directory unplugged"
proof -
  note t = closed_transport_is_fatal [of unplugged None bad_line 1005 "[]" 1]
  from t have imp: "transport_closed unplugged \<longrightarrow>
      loop None unplugged = (Exit 1, log_fatal (text_of ''Serial connection closed unexpectedly.'') unplugged)
      \<and> run [] unplugged = (Exit 1, log_fatal (text_of ''Serial connection closed unexpectedly.'') unplugged)
      \<and> run (Line bad_line 1005 # []) unplugged
          = (Exit 1, log_fatal (text_of ''Serial connection closed unexpectedly.'') unplugged)
      \<and> logged (snd (loop None unplugged))
          = logged unplugged @ [(FATAL, text_of ''Serial connection closed unexpectedly.'')]
      \<and> logged (snd (run (Line bad_line 1005 # []) unplugged))
          = logged unplugged @ [(FATAL, text_of ''Serial connection closed unexpectedly.'')]
      \<and> exit_status (fst (loop None unplugged)) = Some 1"
    by (rule conjunct1)
  from imp unplugged_closed
  have l: "loop None unplugged = (Exit 1, log_fatal (text_of ''Serial connection closed unexpectedly.'') unplugged)"
    and g1: "logged (snd (loop None unplugged))
          = logged unplugged @ [(FATAL, text_of ''Serial connection closed unexpectedly.'')]"
    and g2: "logged (snd (run (Line bad_line 1005 # []) unplugged))
          = logged unplugged @ [(FATAL, text_of ''Serial connection closed unexpectedly.'')]"
    by blast+
  from t have k: "arduino (snd (loop None unplugged)) = arduino unplugged"
    and d: "directory (snd (loop None unplugged)) = directory unplugged"
    by blast+
  have g1': "logged (snd (loop None unplugged))
       = [(INFO, text_of ''Connected to COM4 at 9600 baud.''),
          (FATAL, text_of ''Serial connection closed unexpectedly.'')]"
    unfolding g1 unplugged_logged by simp
  have g2': "logged (snd (run (Line bad_line 1005 # []) unplugged))
       = [(INFO, text_of ''Connected to COM4 at 9600 baud.''),
          (FATAL, text_of ''Serial connection closed unexpectedly.'')]"
    unfolding g2 unplugged_logged by simp
  have x: "fst (loop None unplugged) = Exit 1" by (simp add: l)
  have y: "exit_status (fst (loop None unplugged)) = Some 1" by (simp add: l)
  show ?thesis
    using unplugged_closed x y g1' g2' k d by blast
qed

text \<open>
  C10. The line \<open>1_0\<close> is not a sequence of decimal digits only, yet \<open>int\<close> accepts it,
  underscores between digits being part of Python's integer syntax: the call records a
  row with the value 10.
\<close>

theorem underscore_literal_is_recorded:
  assumes "\<not> transport_closed s"
  shows "py_int (py_strip (text_of ''1_0'' @ [newline])) = Inr 10
       \<and> fst (loop (Some (bytes_of ''1_0'' @ [10], now)) s) = Returned
       \<and> csv_text (snd (loop (Some (bytes_of ''1_0'' @ [10], now)) s))
           = csv_text s @ py_str (now - ms_at_start s) @ [comma] @ text_of ''10'' @ [newline]"
proof -
  have p: "parsed (bytes_of ''1_0'' @ [10]) = Some 10"
    by (simp add: evals)
  have ten: "py_str 10 = text_of ''10''"
    by (simp add: py_str_def digits10.simps text_of_def)
  have "py_int (py_strip (text_of ''1_0'' @ [newline])) = Inr 10"
    by (simp add: evals)
  then show ?thesis
    using loop_parsed(1,2) [OF assms p, of now] by (simp add: row_def ten)
qed

theorem underscore_literal_is_recorded_witness:
  "\<not> transport_closed (running [])
   \<and> fst (loop (Some (bytes_of ''1_0'' @ [10], 1005)) (running [])) = Returned
   \<and> csv_text (snd (loop (Some (bytes_of ''1_0'' @ [10], 1005)) (running [])))
       = header @ text_of ''5,10'' @ [newline]"
proof -
  have five: "py_str 5 = text_of ''5''"
    by (simp add: py_str_def digits10.simps text_of_def)
  show ?thesis
    using underscore_literal_is_recorded [OF running_open [of "[]"], of 1005] running_open [of "[]"]
    by (simp add: running_fields five text_of_def comma_def)
qed

section \<open>The interrupt handler\<close>

lemma deliver_sigint_raises: "deliver_sigint s = (Raised TypeError, s)"
  by (simp add: deliver_sigint_def handle_sigint_def)

lemma handle_sigint_unbound: "handle_sigint 0 s = (Raised UnboundLocalError, s)"
  by (simp add: handle_sigint_def handle_sigint_body_def)

lemma run_sigint: "run (Sigint # es) s = (Raised TypeError, s)"
  by (simp add: deliver_sigint_raises)

lemma closed_is_not_forced:
  "(FATAL, text_of ''Serial connection closed unexpectedly.'') \<noteq> forced_exit_record"
  by (simp add: forced_exit_record_def text_of_def)

lemma loop_forced_exit:
  "filter (\<lambda>r. r = forced_exit_record) (logged (snd (loop input s)))
     = filter (\<lambda>r. r = forced_exit_record) (logged s)"
proof (cases "transport_closed s")
  case True
  then show ?thesis using closed_is_not_forced by (simp add: loop_closed log_fatal_def)
next
  case False
  then show ?thesis by (simp add: loop_open_facts)
qed

lemma run_forced_exit:
  "filter (\<lambda>r. r = forced_exit_record) (logged (snd (run es s)))
     = filter (\<lambda>r. r = forced_exit_record) (logged s)"
proof (induction es arbitrary: s)
  case Nil
  show ?case by (simp add: loop_forced_exit)
next
  case (Cons ev es)
  show ?case
  proof (cases ev)
    case (Line b now)
    obtain out s' where step: "loop (Some (b, now)) s = (out, s')"
      by (cases "loop (Some (b, now)) s")
    have s': "filter (\<lambda>r. r = forced_exit_record) (logged s')
               = filter (\<lambda>r. r = forced_exit_record) (logged s)"
      using loop_forced_exit [of "Some (b, now)" s] by (simp add: step)
    show ?thesis
    proof (cases "out = Returned")
      case True
      then have "run (ev # es) s = run es s'" by (simp add: Line step)
      with Cons.IH [of s'] s' show ?thesis by simp
    next
      case False
      then have "run (ev # es) s = (out, s')" by (cases out) (simp_all add: Line step)
      with s' show ?thesis by simp
    qed
  next
    case Sigint
    have "run (ev # es) s = (Raised TypeError, s)" unfolding Sigint by (rule run_sigint)
    then show ?thesis by simp
  qed
qed

text \<open>
  C1 does not hold of the code. In every state, and whatever follows, the delivery of
  SIGINT ends in \<open>TypeError\<close>: the handler is called with two arguments and takes none.
  The state is not changed, so the port is not closed and no file is written, and the
  process ends with status 1. Called without arguments the handler would stop on its
  first line, reading a local variable that is not bound.
\<close>

theorem one_sigint_raises_TypeError:
  "run (Sigint # es) s = (Raised TypeError, s)
   \<and> exit_status (Raised TypeError) = Some 1
   \<and> handle_sigint 0 s = (Raised UnboundLocalError, s)"
  by (simp add: deliver_sigint_raises handle_sigint_unbound)

text \<open>
  C2 does not hold of the code either. The first SIGINT already ends the process, so a
  second one is never handled; no call of the handler reaches the branch that reports the
  forced exit, and no session ever adds that record to the log.
\<close>

theorem forced_exit_is_never_reported:
  "run (Sigint # Sigint # es) s = (Raised TypeError, s)
   \<and> (fst (handle_sigint nargs s) = Raised TypeError
        \<or> fst (handle_sigint nargs s) = Raised UnboundLocalError)
   \<and> snd (handle_sigint nargs s) = s
   \<and> filter (\<lambda>r. r = forced_exit_record) (logged (snd (run es' s)))
       = filter (\<lambda>r. r = forced_exit_record) (logged s)"
  by (simp add: deliver_sigint_raises run_forced_exit handle_sigint_def handle_sigint_body_def)


section \<open>The directory scan\<close>

lemma basename_plain: "slash \<notin> set n \<Longrightarrow> basename n = n"
proof -
  assume "slash \<notin> set n"
  then have "takeWhile (\<lambda>c. c \<noteq> slash) (rev n) = rev n"
    by (intro takeWhile_eq_all_conv [THEN iffD2]) auto
  then have "rev (takeWhile (\<lambda>c. c \<noteq> slash) (rev n)) = rev (rev n)"
    by (rule arg_cong)
  then show ?thesis by (simp only: basename_def rev_rev_ident)
qed

lemma basename_join: "slash \<notin> set n \<Longrightarrow> basename (dir @ [slash] @ n) = n"
proof -
  assume n: "slash \<notin> set n"
  have "takeWhile (\<lambda>c. c \<noteq> slash) (rev n @ slash # rev dir) = rev n"
    using n by (subst takeWhile_append2) auto
  then show ?thesis by (simp add: basename_def)
qed

lemma file_number_join:
  "slash \<notin> set n \<Longrightarrow> file_number (dir @ [slash] @ n) = file_number n"
proof -
  assume n: "slash \<notin> set n"
  have "basename (dir @ [slash] @ n) = basename n"
    by (simp only: basename_join [OF n] basename_plain [OF n])
  then show ?thesis by (simp only: file_number_def)
qed








lemma py_max_nonempty: "ns \<noteq> [] \<Longrightarrow> \<exists>h. py_max ns = Inr h"
  by (cases ns) (simp_all add: py_max_def)


lemma body_scan_fails:
  assumes "arduino s = Some a" and "next_filename (OUTPUT_DIR s) (map fst (directory s)) = Inl e"
  shows "fst (handle_sigint_body (Some 0) s) = Raised e"
    and "directory (snd (handle_sigint_body (Some 0) s)) = directory s"
    and "fatal_records (logged (snd (handle_sigint_body (Some 0) s))) = fatal_records (logged s)"
  using assms
  by (simp_all add: handle_sigint_body_def Let_def log_info_def fatal_records_def)

lemmas scan_evals = next_filename_def glob_csv_def ishidden_def fnmatch_csv_def py_max_def
  file_number_def basename_def splitext_def item1_def py_str_def digits10.simps

lemma number_3: "file_number (text_of ''LoadCellData_3.csv'') = Inr 3"
  by (simp add: scan_evals evals)

lemma number_7: "file_number (text_of ''LoadCellData_7.csv'') = Inr 7"
  by (simp add: scan_evals evals)



lemma next_empty: "next_filename dir [] = Inl ValueError"
  by (simp add: next_filename_def glob_csv_def py_max_def)

lemma glob_37:
  "glob_csv dir [text_of ''LoadCellData_3.csv'', text_of ''LoadCellData_7.csv'']
     = [dir @ [slash] @ text_of ''LoadCellData_3.csv'', dir @ [slash] @ text_of ''LoadCellData_7.csv'']"
  by (simp add: glob_csv_def ishidden_def fnmatch_csv_def text_of_def dot_def)



lemma no_slash:
  "slash \<notin> set (text_of ''LoadCellData_3.csv'')" "slash \<notin> set (text_of ''LoadCellData_7.csv'')"
  "slash \<notin> set (text_of ''Other_9.csv'')" "slash \<notin> set (text_of ''notes.csv'')"
  by (simp_all add: text_of_def slash_def)

lemma file_number_joined:
  "slash \<notin> set n \<Longrightarrow> file_number (dir @ slash # n) = file_number n"
  using file_number_join [of n dir] by simp

lemma name_8: "text_of ''LoadCellData_'' @ py_str 8 @ text_of ''.csv'' = text_of ''LoadCellData_8.csv''"
  by (simp add: py_str_def digits10.simps text_of_def)


lemma next_37:
  "next_filename dir [text_of ''LoadCellData_3.csv'', text_of ''LoadCellData_7.csv'']
     = Inr (text_of ''LoadCellData_8.csv'')"
proof -
  have "numbers (glob_csv dir [text_of ''LoadCellData_3.csv'', text_of ''LoadCellData_7.csv''])
          = Inr [3, 7]"
    unfolding glob_37 by (simp add: file_number_joined no_slash number_3 number_7)
  then show ?thesis
    unfolding next_filename_def by (simp add: py_max_def name_8)
qed



lemma running_port: "arduino (running dir) = Some open_port"
  by (rule running_fields)

text \<open>
  C3 does not hold of the code. With the files \<open>LoadCellData_3.csv\<close> and
  \<open>LoadCellData_7.csv\<close> the next name is \<open>LoadCellData_8.csv\<close>, as the claim says. For a
  directory without entries, however, \<open>max\<close> is applied to the empty list and raises
  \<open>ValueError\<close>: there is no index 0 and no name \<open>LoadCellData_0.csv\<close>, and the lines
  of the handler that save the data end with that exception and an empty directory.
\<close>

theorem empty_directory_has_no_next_index:
  "next_filename (text_of ''./OutputData'') [] = Inl ValueError
   \<and> next_filename (text_of ''./OutputData'')
         [text_of ''LoadCellData_3.csv'', text_of ''LoadCellData_7.csv'']
       = Inr (text_of ''LoadCellData_8.csv'')
   \<and> fst (handle_sigint_body (Some 0) (running [])) = Raised ValueError
   \<and> directory (snd (handle_sigint_body (Some 0) (running []))) = []"
proof -
  have e: "next_filename (OUTPUT_DIR (running [])) (map fst (directory (running []))) = Inl ValueError"
    by (simp add: running_fields next_empty)
  note b = body_scan_fails [OF running_port e]
  show ?thesis using b(1,2) by (simp add: next_empty next_37 running_fields)
qed











end
